theory Spec2Isabelle
  imports Complex_Main "HOL-Library.Multiset"
begin

section \<open>The vector store: \<open>src/vector_db/faiss_manager.py\<close>\<close>

text \<open>
  An embedding is a Python list of floats, here a list of reals. The manager converts
  it to a \<open>float32\<close> array before it reaches the index (lines 38 and 74); a \<open>float32\<close>
  is a finite number, an infinity (the result of an overflow) or not a number.
\<close>

type_synonym vec = "real list"

datatype float32 =
    Finite real
  | Infinite
  | NaN

type_synonym fvec = "float32 list"

type_synonym metadata = "string \<rightharpoonup> string"

datatype error =
    ValueError
  | IndexError
  | AssertionError
  | EmbeddingError
  | GenerationError

text \<open>
  The single precision arithmetic is a parameter of the model, about which nothing is
  assumed: how a Python float is rounded to \<open>float32\<close> (\<open>astype('float32')\<close>), and the
  squared Euclidean distance the index computes in \<open>float32\<close> between a converted
  query and a stored vector. Whatever rounding and overflow the machine has is one
  such pair of functions.
\<close>

record float32_arith =
  astype_float32 :: "real \<Rightarrow> float32"
  fvec_L2sqr :: "fvec \<Rightarrow> fvec \<Rightarrow> float32"

text \<open>
  \<open>np.array(rows).astype('float32')\<close> for a list of lists: rows of unequal length
  raise \<open>ValueError\<close>; otherwise every component is converted.
\<close>

definition to_float32_array :: "float32_arith \<Rightarrow> vec list \<Rightarrow> error + fvec list" where
  "to_float32_array N rows =
     (if list_all (\<lambda>r. length r = length (hd rows)) rows
      then Inr (map (map (astype_float32 N)) rows)
      else Inl ValueError)"

subsection \<open>The index library object\<close>

text \<open>
  \<open>faiss.IndexFlatL2(dimension)\<close> is an object of a library outside the repository.
  Its state is a fixed dimension \<open>d\<close> and the stored \<open>float32\<close> vectors \<open>xb\<close> in
  insertion order, label \<open>i\<close> being the \<open>i\<close>-th vector added; \<open>ntotal\<close> is their number.
\<close>

record IndexFlatL2 =
  d :: nat
  xb :: "fvec list"

definition ntotal :: "IndexFlatL2 \<Rightarrow> nat" where
  "ntotal ix = length (xb ix)"

text \<open>
  \<open>index.add(x)\<close> unpacks the shape of a two-dimensional array (an empty list of rows
  has none: \<open>ValueError\<close>), asserts that its width is the index's dimension, and
  appends the rows.
\<close>

definition index_add :: "IndexFlatL2 \<Rightarrow> fvec list \<Rightarrow> error + IndexFlatL2" where
  "index_add ix rows =
     (if rows = [] then Inl ValueError
      else if list_all (\<lambda>r. length r = d ix) rows
      then Inr (ix\<lparr>xb := xb ix @ rows\<rparr>)
      else Inl AssertionError)"

definition index_reset :: "IndexFlatL2 \<Rightarrow> IndexFlatL2" where
  "index_reset ix = ix\<lparr>xb := []\<rparr>"

text \<open>
  \<open>index.search(x, k)\<close> for one query row. The wrapper asserts the width of the query
  and \<open>k > 0\<close>. The scan passes over the stored vectors in insertion order and keeps
  the \<open>k\<close> best in a heap whose slots start at the largest finite \<open>float32\<close> with the
  label \<open>-1\<close>; a vector enters only if its distance is strictly below the worst kept
  one, and the heap is ordered by distance and then by label. So a distance that is
  infinite, not a number or not below \<open>FLT_MAX\<close> never enters, the vectors that enter
  come out nearest first with equal distances in insertion order, and the slots left
  over keep \<open>FLT_MAX\<close> and \<open>-1\<close>.
\<close>

definition FLT_MAX :: real where
  "FLT_MAX = 340282346638528859811704183484516925440"

definition admit :: "float32 \<Rightarrow> real option" where
  "admit f = (case f of Finite r \<Rightarrow> if r < FLT_MAX then Some r else None | _ \<Rightarrow> None)"

definition candidates :: "float32_arith \<Rightarrow> IndexFlatL2 \<Rightarrow> fvec \<Rightarrow> (real \<times> int) list" where
  "candidates N ix x =
     List.map_filter
       (\<lambda>i. map_option (\<lambda>r. (r, int i)) (admit (fvec_L2sqr N x (xb ix ! i))))
       [0..<ntotal ix]"

definition index_search ::
  "float32_arith \<Rightarrow> IndexFlatL2 \<Rightarrow> fvec \<Rightarrow> nat \<Rightarrow> error + (real \<times> int) list" where
  "index_search N ix x k =
     (if length x \<noteq> d ix \<or> k = 0 then Inl AssertionError
      else Inr (take k (sort_key fst (candidates N ix x))
                @ replicate (k - length (candidates N ix x)) (FLT_MAX, - 1)))"

subsection \<open>The manager\<close>

record FAISSManager =
  index :: IndexFlatL2
  texts :: "string list"
  metadatas :: "metadata list"

record hit =
  result_text :: string
  metadata :: metadata
  distance :: real

text \<open>\<open>FAISSManager(dimension)\<close>, lines 13-24.\<close>

definition new_manager :: "nat \<Rightarrow> FAISSManager" where
  "new_manager dimension =
     \<lparr>index = \<lparr>d = dimension, xb = []\<rparr>, texts = [], metadatas = []\<rparr>"

text \<open>
  \<open>add_documents\<close>, lines 26-55. A Python exception leaves the object as mutated so
  far, so the model returns the raised error (if any) together with the state.
  \<open>if metadatas:\<close> is false for \<open>None\<close> and for the empty list alike.
\<close>

definition add_documents ::
  "float32_arith \<Rightarrow> FAISSManager \<Rightarrow> vec list \<Rightarrow> string list \<Rightarrow> metadata list option \<Rightarrow>
   error option \<times> FAISSManager" where
  "add_documents N st embeddings txts metas =
     (if embeddings = [] \<or> txts = [] then (None, st)
      else if length embeddings \<noteq> length txts then (Some ValueError, st)
      else
        (case to_float32_array N embeddings of
           Inl e \<Rightarrow> (Some e, st)
         | Inr embeddings_np \<Rightarrow>
             (case index_add (index st) embeddings_np of
                Inl e \<Rightarrow> (Some e, st)
              | Inr ix \<Rightarrow>
                  (let st1 = st\<lparr>index := ix, texts := texts st @ txts\<rparr> in
                   (case metas of
                      Some (m # ms) \<Rightarrow>
                        (if length (m # ms) \<noteq> length txts then (Some ValueError, st1)
                         else (None, st1\<lparr>metadatas := metadatas st1 @ (m # ms)\<rparr>))
                    | _ \<Rightarrow>
                        (None, st1\<lparr>metadatas :=
                           metadatas st1 @ map (\<lambda>_. Map.empty) txts\<rparr>))))))"

text \<open>
  Python's \<open>xs[i]\<close> for an integer \<open>i\<close>: a negative index counts from the end, and an
  index outside \<open>-len .. len-1\<close> raises \<open>IndexError\<close>.
\<close>

definition py_getitem :: "'a list \<Rightarrow> int \<Rightarrow> error + 'a" where
  "py_getitem xs i =
     (if 0 \<le> i \<and> i < int (length xs) then Inr (xs ! nat i)
      else if i < 0 \<and> - int (length xs) \<le> i then Inr (xs ! nat (int (length xs) + i))
      else Inl IndexError)"

text \<open>The loop of \<open>search\<close>, lines 79-96, over the row the library returned.\<close>

fun collect_results :: "FAISSManager \<Rightarrow> (real \<times> int) list \<Rightarrow> error + hit list" where
  "collect_results st [] = Inr []"
| "collect_results st ((dis, idx) # rest) =
     (if idx = - 1 then collect_results st rest
      else
        (case py_getitem (texts st) idx of
           Inl e \<Rightarrow> Inl e
         | Inr t \<Rightarrow>
             (case (if idx < int (length (metadatas st))
                    then py_getitem (metadatas st) idx else Inr Map.empty) of
                Inl e \<Rightarrow> Inl e
              | Inr m \<Rightarrow>
                  (case collect_results st rest of
                     Inl e \<Rightarrow> Inl e
                   | Inr hs \<Rightarrow> Inr (\<lparr>result_text = t, metadata = m, distance = dis\<rparr> # hs)))))"

text \<open>
  \<open>search\<close>, lines 58-96. The search routine of the index is an argument, so that
  what holds of the manager's own code whatever the routine returns can be stated for
  every routine; \<open>index_search\<close> above is the one of \<open>faiss.IndexFlatL2\<close>.
\<close>

type_synonym search_routine = "IndexFlatL2 \<Rightarrow> fvec \<Rightarrow> nat \<Rightarrow> error + (real \<times> int) list"

definition search ::
  "float32_arith \<Rightarrow> search_routine \<Rightarrow> FAISSManager \<Rightarrow> vec \<Rightarrow> nat \<Rightarrow> error + hit list" where
  "search N lib st query_embedding k =
     (if ntotal (index st) = 0 then Inr []
      else
        (case lib (index st) (map (astype_float32 N) query_embedding) k of
           Inl e \<Rightarrow> Inl e
         | Inr row \<Rightarrow> collect_results st row))"

text \<open>\<open>reset_index\<close>, lines 98-103.\<close>

definition reset_index :: "FAISSManager \<Rightarrow> FAISSManager" where
  "reset_index st = st\<lparr>index := index_reset (index st), texts := [], metadatas := []\<rparr>"


section \<open>The run endpoint: \<open>main.py\<close>\<close>

text \<open>
  The collaborators of \<open>run_hackrx_submission\<close> are parameters of the model, gathered
  in one record: the configured token, document extraction (\<open>None\<close> when the document
  cannot be loaded or yields no text), the chunker and the answer client (both modules
  of the repository whose files are not among the sources), the embedding model and
  the arithmetic and the search routine of the index library. A collaborator that can
  raise returns a sum.
  Text is a list of 8-bit characters.
\<close>

record env =
  REQUIRED_AUTH_TOKEN :: string
  extract_text_from_document :: "string \<Rightarrow> string option"
  split_text_into_chunks :: "string \<Rightarrow> nat \<Rightarrow> nat \<Rightarrow> string list"
  get_embeddings :: "string list \<Rightarrow> error + vec list"
  arith :: float32_arith
  faiss_search :: search_routine
  generate_answer :: "string \<Rightarrow> string list \<Rightarrow> error + string"

record RunRequest =
  documents :: string
  questions :: "string list"

text \<open>
  What the endpoint answers: the 200 body, an \<open>HTTPException\<close> with its status code
  and detail, or the framework's 500 for an exception nobody handles.
\<close>

datatype response =
    RunResponse "string list"
  | HTTPException nat string
  | InternalServerError

text \<open>
  The entries of \<open>llm_tasks\<close>: \<open>asyncio.sleep(0, result=...)\<close>, which yields its result
  without calling anything, and \<open>groq_llm_client.generate_answer(question, contexts)\<close>.
\<close>

datatype task =
    Sleep0 string
  | GenerateAnswer string "string list"

text \<open>
  The calls the run makes on its collaborators and on the index up to the end of
  indexing (line 112), in program order.
\<close>

datatype call =
    Extract string
  | Split string nat nat
  | Embed "string list"
  | ResetIndex
  | AddDocuments "vec list" "string list"

record outcome =
  response :: response
  manager :: FAISSManager
  calls :: "call list"
  llm_tasks :: "task list"

subsection \<open>String helpers of Python\<close>

text \<open>\<open>s.split(" ")\<close>: every single space separates, so the result is never empty.\<close>

fun split_space :: "string \<Rightarrow> string list" where
  "split_space [] = [[]]"
| "split_space (c # cs) =
     (if c = CHR '' '' then [] # split_space cs
      else (case split_space cs of
              [] \<Rightarrow> [[c]]
            | w # ws \<Rightarrow> (c # w) # ws))"

text \<open>
  \<open>s.lower()\<close> on the characters a header can hold (code points below 256): the
  ASCII capitals and the capitals \<open>0xC0..0xDE\<close> other than the multiplication sign move
  up by 32.
\<close>

definition lower_char :: "char \<Rightarrow> char" where
  "lower_char c =
     (let n = (of_char c :: nat) in
      if (65 \<le> n \<and> n \<le> 90) \<or> (192 \<le> n \<and> n \<le> 222 \<and> n \<noteq> 215)
      then char_of (n + 32) else c)"

definition lower :: "string \<Rightarrow> string" where
  "lower s = map lower_char s"

text \<open>\<open>not s.strip()\<close>: the text is empty or consists of whitespace only.\<close>

definition isspace :: "char \<Rightarrow> bool" where
  "isspace c \<longleftrightarrow>
     (of_char c :: nat) \<in> {9, 10, 11, 12, 13, 28, 29, 30, 31, 32, 133, 160}"

definition blank :: "string \<Rightarrow> bool" where
  "blank s = list_all isspace s"

definition apostrophe :: char where
  "apostrophe = CHR 0x27"

subsection \<open>Authentication, lines 49-68\<close>

definition check_authorization :: "string \<Rightarrow> string option \<Rightarrow> response option" where
  "check_authorization secret auth_header =
     (case auth_header of
        None \<Rightarrow> Some (HTTPException 401 ''Authorization header missing'')
      | Some h \<Rightarrow>
          (if h = [] then Some (HTTPException 401 ''Authorization header missing'')
           else
             (case split_space h of
                [token_type, token] \<Rightarrow>
                  (if lower token_type \<noteq> ''bearer'' \<or> token \<noteq> secret
                   then Some (HTTPException 401 ''Invalid authentication token'')
                   else None)
              | _ \<Rightarrow>
                  Some (HTTPException 401
                    (''Invalid Authorization header format. Expected '' @ [apostrophe]
                     @ ''Bearer <token>'' @ [apostrophe])))))"

subsection \<open>Extraction, chunking, embedding and indexing, lines 70-112\<close>

definition CHUNK_SIZE :: nat where
  "CHUNK_SIZE = 1000"

definition CHUNK_OVERLAP :: nat where
  "CHUNK_OVERLAP = 200"

definition extraction_failed :: response where
  "extraction_failed = HTTPException 400
     (''Could not download or extract text from the provided document URL. ''
      @ ''Ensure it'' @ [apostrophe] @ ''s a valid PDF, DOCX, or email link.'')"

definition chunking_failed :: response where
  "chunking_failed = HTTPException 400 ''Could not split the document text into chunks.''"

text \<open>
  The result is the response that ends the request here, if any, the manager as the
  section leaves it, and the calls made.
\<close>

definition ingest ::
  "env \<Rightarrow> FAISSManager \<Rightarrow> string \<Rightarrow> response option \<times> FAISSManager \<times> call list" where
  "ingest E st document_url =
     (case extract_text_from_document E document_url of
        None \<Rightarrow> (Some extraction_failed, st, [Extract document_url])
      | Some document_text \<Rightarrow>
          (if blank document_text
           then (Some extraction_failed, st, [Extract document_url])
           else
             (let text_chunks =
                    split_text_into_chunks E document_text CHUNK_SIZE CHUNK_OVERLAP;
                  made = [Extract document_url,
                          Split document_text CHUNK_SIZE CHUNK_OVERLAP]
              in
                if text_chunks = [] then (Some chunking_failed, st, made)
                else
                  (case get_embeddings E text_chunks of
                     Inl e \<Rightarrow> (Some InternalServerError, st, made @ [Embed text_chunks])
                   | Inr chunk_embeddings \<Rightarrow>
                       (let st1 = reset_index st;
                            added = add_documents (arith E) st1 chunk_embeddings text_chunks None;
                            made' = made @ [Embed text_chunks, ResetIndex,
                                            AddDocuments chunk_embeddings text_chunks]
                        in
                          (case fst added of
                             Some e \<Rightarrow> (Some InternalServerError, snd added, made')
                           | None \<Rightarrow> (None, snd added, made')))))))"

subsection \<open>One task per question and the gathering, lines 114-163\<close>

definition TOP_K_RETRIEVAL :: nat where
  "TOP_K_RETRIEVAL = 10"

definition not_found :: "string \<Rightarrow> string" where
  "not_found question =
     ''Information for '' @ [apostrophe] @ question @ [apostrophe]
     @ '' not found in document.''"

text \<open>The body of the loop, lines 120-155: the task made for one question.\<close>

definition prepare_task :: "env \<Rightarrow> FAISSManager \<Rightarrow> string \<Rightarrow> error + task" where
  "prepare_task E st question =
     (case get_embeddings E [question] of
        Inl e \<Rightarrow> Inl e
      | Inr query_embedding \<Rightarrow>
          (case query_embedding of
             [] \<Rightarrow> Inl IndexError
           | query_embedding_single # _ \<Rightarrow>
               (case search (arith E) (faiss_search E) st query_embedding_single
                       TOP_K_RETRIEVAL of
                  Inl e \<Rightarrow> Inl e
                | Inr search_results \<Rightarrow>
                    (if search_results = [] then Inr (Sleep0 (not_found question))
                     else Inr (GenerateAnswer question
                                 (map result_text search_results))))))"

text \<open>
  The loop: tasks are appended in the order of the questions; an exception leaves the
  loop with the tasks made so far.
\<close>

fun prepare_tasks ::
  "env \<Rightarrow> FAISSManager \<Rightarrow> string list \<Rightarrow> task list \<Rightarrow> error option \<times> task list" where
  "prepare_tasks E st [] tasks = (None, tasks)"
| "prepare_tasks E st (question # rest) tasks =
     (case prepare_task E st question of
        Inl e \<Rightarrow> (Some e, tasks)
      | Inr t \<Rightarrow> prepare_tasks E st rest (tasks @ [t]))"

fun run_task :: "env \<Rightarrow> task \<Rightarrow> error + string" where
  "run_task E (Sleep0 r) = Inr r"
| "run_task E (GenerateAnswer question contexts) = generate_answer E question contexts"

text \<open>
  \<open>await asyncio.gather(*llm_tasks)\<close> without \<open>return_exceptions\<close>: the list of the
  results in the order of the tasks when every task returns, and otherwise the
  exception of a task that raised (here: of the first such task in the list).
\<close>

fun gather :: "env \<Rightarrow> task list \<Rightarrow> error + string list" where
  "gather E [] = Inr []"
| "gather E (t # ts) =
     (case run_task E t of
        Inl e \<Rightarrow> Inl e
      | Inr a \<Rightarrow>
          (case gather E ts of
             Inl e \<Rightarrow> Inl e
           | Inr rest \<Rightarrow> Inr (a # rest)))"

definition answer_questions ::
  "env \<Rightarrow> FAISSManager \<Rightarrow> string list \<Rightarrow> response \<times> task list" where
  "answer_questions E st qs =
     (case prepare_tasks E st qs [] of
        (Some e, tasks) \<Rightarrow> (InternalServerError, tasks)
      | (None, tasks) \<Rightarrow>
          (case gather E tasks of
             Inl e \<Rightarrow> (InternalServerError, tasks)
           | Inr final_answers \<Rightarrow> (RunResponse final_answers, tasks)))"

subsection \<open>The endpoint\<close>

definition run_hackrx_submission ::
  "env \<Rightarrow> FAISSManager \<Rightarrow> string option \<Rightarrow> RunRequest \<Rightarrow> outcome" where
  "run_hackrx_submission E st auth_header payload =
     (case check_authorization (REQUIRED_AUTH_TOKEN E) auth_header of
        Some r \<Rightarrow> \<lparr>response = r, manager = st, calls = [], llm_tasks = []\<rparr>
      | None \<Rightarrow>
          (case ingest E st (documents payload) of
             (Some r, st', made) \<Rightarrow>
               \<lparr>response = r, manager = st', calls = made, llm_tasks = []\<rparr>
           | (None, st', made) \<Rightarrow>
               (case answer_questions E st' (questions payload) of
                  (r, tasks) \<Rightarrow>
                    \<lparr>response = r, manager = st', calls = made, llm_tasks = tasks\<rparr>)))"

section \<open>Auxiliary notions for the statements\<close>




text \<open>
  The unit of work of one question: its task is prepared (embedding and search) and
  then run.
\<close>

definition question_unit :: "env \<Rightarrow> FAISSManager \<Rightarrow> string \<Rightarrow> error + string" where
  "question_unit E st question =
     (case prepare_task E st question of
        Inl e \<Rightarrow> Inl e
      | Inr t \<Rightarrow> run_task E t)"

subsection \<open>A small concrete installation\<close>

text \<open>
  An arithmetic without rounding: it is that of \<open>float32\<close> wherever \<open>float32\<close> is
  exact, as it is on the small integers and the power of two used below. On it, a
  one-dimensional store holding three chunks, two of them at the same place, a store
  with one chunk so far away that its squared distance overflows, and collaborators
  simple enough to evaluate: the embedding of a text is its length.
\<close>

definition finite_values :: "fvec \<Rightarrow> real list option" where
  "finite_values x = those (map (\<lambda>f. case f of Finite r \<Rightarrow> Some r | _ \<Rightarrow> None) x)"

definition exact32 :: float32_arith where
  "exact32 =
     \<lparr>astype_float32 = (\<lambda>r. if \<bar>r\<bar> \<le> FLT_MAX then Finite r else Infinite),
      fvec_L2sqr =
        (\<lambda>x y. case (finite_values x, finite_values y) of
                 (Some a, Some b) \<Rightarrow>
                   (let s = sum_list (map (\<lambda>(u, v). (u - v)\<^sup>2) (zip a b))
                    in if s \<le> FLT_MAX then Finite s else Infinite)
               | _ \<Rightarrow> NaN)\<rparr>"

definition demo_store :: FAISSManager where
  "demo_store = snd (add_documents exact32 (new_manager 1) [[0], [0], [3]]
                       [''first'', ''second'', ''third''] None)"

definition far_store :: FAISSManager where
  "far_store = snd (add_documents exact32 (new_manager 1) [[0], [18446744073709551616]]
                      [''near'', ''far''] None)"

definition demo_env :: env where
  "demo_env =
     \<lparr>REQUIRED_AUTH_TOKEN = ''s3cret'',
      extract_text_from_document =
        (\<lambda>url. if url = ''policy.pdf'' then Some ''grace period''
               else if url = ''blank.pdf'' then Some '' '' else None),
      split_text_into_chunks =
        (\<lambda>t size overlap. if t = ''grace period'' then [''grace'', ''period''] else []),
      get_embeddings = (\<lambda>ts. Inr (map (\<lambda>t. [real (length t)]) ts)),
      arith = exact32,
      faiss_search = index_search exact32,
      generate_answer =
        (\<lambda>question contexts. if question = ''fail'' then Inl GenerationError
               else Inr (''re: '' @ question))\<rparr>"

text \<open>
  The store and the calls that ingesting \<open>policy.pdf\<close> leaves behind, and requests
  for it.
\<close>

definition policy_store :: FAISSManager where
  "policy_store =
     \<lparr>index = \<lparr>d = 1, xb = [[Finite 5], [Finite 6]]\<rparr>, texts = [''grace'', ''period''],
      metadatas = [Map.empty, Map.empty]\<rparr>"

definition policy_calls :: "call list" where
  "policy_calls =
     [Extract ''policy.pdf'', Split ''grace period'' 1000 200,
      Embed [''grace'', ''period''], ResetIndex,
      AddDocuments [[5], [6]] [''grace'', ''period'']]"

definition demo_request :: RunRequest where
  "demo_request = \<lparr>documents = ''policy.pdf'', questions = [''grace?'', ''Mars?'']\<rparr>"

section \<open>Properties of the vector store\<close>

subsection \<open>The concrete stores\<close>

lemma demo_store_eq:
  "demo_store =
     \<lparr>index = \<lparr>d = 1, xb = [[Finite 0], [Finite 0], [Finite 3]]\<rparr>,
      texts = [''first'', ''second'', ''third''],
      metadatas = [Map.empty, Map.empty, Map.empty]\<rparr>"
  by (simp add: demo_store_def add_documents_def new_manager_def index_add_def
      to_float32_array_def exact32_def FLT_MAX_def)

lemma far_store_eq:
  "far_store =
     \<lparr>index = \<lparr>d = 1, xb = [[Finite 0], [Finite 18446744073709551616]]\<rparr>,
      texts = [''near'', ''far''],
      metadatas = [Map.empty, Map.empty]\<rparr>"
  by (simp add: far_store_def add_documents_def new_manager_def index_add_def
      to_float32_array_def exact32_def FLT_MAX_def)

subsection \<open>Texts and vectors of a reachable manager\<close>

lemma add_documents_counts:
  "ntotal (index (snd (add_documents N st embeddings txts metas))) - ntotal (index st) =
   length (texts (snd (add_documents N st embeddings txts metas))) - length (texts st) \<and>
   ntotal (index st) \<le> ntotal (index (snd (add_documents N st embeddings txts metas))) \<and>
   length (texts st) \<le> length (texts (snd (add_documents N st embeddings txts metas)))"
  by (auto simp: add_documents_def to_float32_array_def index_add_def Let_def ntotal_def
      split: sum.splits option.splits list.splits if_splits)



subsection \<open>The scan of the flat index\<close>


lemma map_filter_labels:
  "map snd (List.map_filter (\<lambda>i. map_option (\<lambda>r. (r, g i)) (h i)) xs) =
   map g (filter (\<lambda>i. h i \<noteq> None) xs)"
  by (induction xs) (auto simp: List.map_filter_simps split: option.splits)

lemma candidates_labels:
  "map snd (candidates N ix x) =
   map int (filter (\<lambda>i. admit (fvec_L2sqr N x (xb ix ! i)) \<noteq> None) [0..<ntotal ix])"
  unfolding candidates_def by (rule map_filter_labels)




lemma candidates_length: "length (candidates N ix x) \<le> ntotal ix"
proof -
  have "length (map snd (candidates N ix x)) \<le> length [0..<ntotal ix]"
    unfolding candidates_labels length_map by (rule length_filter_le)
  then show ?thesis by simp
qed



subsection \<open>The loop of \<open>search\<close> over the row of the index\<close>






subsection \<open>Order of the results and ties\<close>





lemma exact32_dist1:
  "fvec_L2sqr exact32 [Finite a] [Finite b] =
     (if (a - b)\<^sup>2 \<le> FLT_MAX then Finite ((a - b)\<^sup>2) else Infinite)"
  by (simp add: exact32_def finite_values_def)


lemma far_candidates:
  "candidates exact32 (index far_store) [Finite 0] = [(0, 0)]"
  by (simp add: candidates_def far_store_eq ntotal_def exact32_dist1 admit_def FLT_MAX_def
      upt_rec)

lemma demo_query: "astype_float32 exact32 0 = Finite 0"
  by (simp add: exact32_def FLT_MAX_def)



lemma far_search_2:
  "search exact32 (index_search exact32) far_store [0] 2 =
     Inr [\<lparr>result_text = ''near'', metadata = Map.empty, distance = 0\<rparr>]"
proof -
  have row: "index_search exact32 (index far_store) [Finite 0] 2 =
        Inr [(0, 0), (FLT_MAX, - 1)]"
    unfolding index_search_def far_candidates
    by (simp add: far_store_eq eval_nat_numeral)
  have ne: "ntotal (index far_store) \<noteq> 0" by (simp add: far_store_eq ntotal_def)
  have "search exact32 (index_search exact32) far_store [0] 2 =
        collect_results far_store [(0, 0), (FLT_MAX, - 1)]"
    by (simp add: search_def demo_query row ne)
  also have "\<dots> = Inr [\<lparr>result_text = ''near'', metadata = Map.empty, distance = 0\<rparr>]"
    by (simp add: far_store_eq py_getitem_def)
  finally show ?thesis .
qed



subsection \<open>Count of the results\<close>









subsection \<open>Texts a search can return\<close>

lemma py_getitem_mem: "py_getitem xs i = Inr x \<Longrightarrow> x \<in> set xs"
  by (auto simp: py_getitem_def split: if_splits)

lemma collect_results_texts:
  "collect_results st row = Inr hs \<Longrightarrow> set (map result_text hs) \<subseteq> set (texts st)"
proof (induction row arbitrary: hs)
  case Nil
  then show ?case by simp
next
  case (Cons p row)
  obtain dis idx where p: "p = (dis, idx)" by (cases p)
  show ?case
  proof (cases "idx = - 1")
    case True
    with Cons p show ?thesis by simp
  next
    case False
    with Cons.prems p obtain t m hs' where t: "py_getitem (texts st) idx = Inr t"
      and hs': "collect_results st row = Inr hs'"
      and hs: "hs = \<lparr>result_text = t, metadata = m, distance = dis\<rparr> # hs'"
      by (auto split: sum.splits if_splits)
    from Cons.IH[OF hs'] py_getitem_mem[OF t] hs show ?thesis by auto
  qed
qed

lemma search_texts:
  assumes "search N lib st q k = Inr res"
  shows "set (map result_text res) \<subseteq> set (texts st)"
proof (cases "ntotal (index st) = 0")
  case True
  with assms show ?thesis by (simp add: search_def)
next
  case False
  with assms obtain row where "collect_results st row = Inr res"
    by (auto simp: search_def split: sum.splits)
  then show ?thesis by (rule collect_results_texts)
qed

section \<open>Adding and resetting\<close>

lemma reset_index_fresh: "reset_index st = new_manager (d (index st))"
  by (simp add: reset_index_def new_manager_def index_reset_def)

lemma add_documents_texts:
  "texts (snd (add_documents N st embeddings txts metas)) = texts st \<or>
   texts (snd (add_documents N st embeddings txts metas)) = texts st @ txts"
  by (auto simp: add_documents_def Let_def index_add_def
      split: sum.splits option.splits list.splits if_splits)

lemma add_documents_reset_texts:
  "set (texts (snd (add_documents N (reset_index st) embeddings txts metas))) \<subseteq> set txts"
  by (auto simp: add_documents_def reset_index_def Let_def
      split: sum.splits option.splits list.splits if_splits)




text \<open>
  The length of a non-empty \<open>metadatas\<close> is checked after the index and the texts have
  been extended (line 48 after lines 41 and 46): on the three-entry store the call
  below raises and leaves four texts beside three metadatas.
\<close>

lemma add_documents_raises_after_append:
  "fst (add_documents exact32 demo_store [[1]] [''a''] (Some [Map.empty, Map.empty]))
     = Some ValueError \<and>
   length (texts (snd (add_documents exact32 demo_store [[1]] [''a'']
     (Some [Map.empty, Map.empty])))) = 4 \<and>
   length (metadatas (snd (add_documents exact32 demo_store [[1]] [''a'']
     (Some [Map.empty, Map.empty])))) = 3"
  by (simp add: add_documents_def index_add_def to_float32_array_def demo_store_eq)

section \<open>The ingestion part of a run\<close>

lemma ingest_None:
  assumes "ingest E st url = (None, st', made)"
  shows "\<exists>document_text chunk_embeddings.
           extract_text_from_document E url = Some document_text \<and>
           \<not> blank document_text \<and>
           split_text_into_chunks E document_text CHUNK_SIZE CHUNK_OVERLAP \<noteq> [] \<and>
           get_embeddings E (split_text_into_chunks E document_text CHUNK_SIZE CHUNK_OVERLAP)
             = Inr chunk_embeddings \<and>
           add_documents (arith E) (reset_index st) chunk_embeddings
             (split_text_into_chunks E document_text CHUNK_SIZE CHUNK_OVERLAP) None
             = (None, st')"
  using assms unfolding ingest_def Let_def
  by (auto split: option.splits if_splits sum.splits simp: prod_eq_iff)

lemma ingest_calls:
  "(\<exists>document_text chunk_embeddings.
      extract_text_from_document E url = Some document_text \<and>
      \<not> blank document_text \<and>
      split_text_into_chunks E document_text CHUNK_SIZE CHUNK_OVERLAP \<noteq> [] \<and>
      get_embeddings E (split_text_into_chunks E document_text CHUNK_SIZE CHUNK_OVERLAP)
        = Inr chunk_embeddings \<and>
      fst (snd (ingest E st url)) =
        snd (add_documents (arith E) (reset_index st) chunk_embeddings
          (split_text_into_chunks E document_text CHUNK_SIZE CHUNK_OVERLAP) None) \<and>
      snd (snd (ingest E st url)) =
        [Extract url, Split document_text CHUNK_SIZE CHUNK_OVERLAP,
         Embed (split_text_into_chunks E document_text CHUNK_SIZE CHUNK_OVERLAP),
         ResetIndex,
         AddDocuments chunk_embeddings
           (split_text_into_chunks E document_text CHUNK_SIZE CHUNK_OVERLAP)])
   \<or> (fst (ingest E st url) \<noteq> None \<and> fst (snd (ingest E st url)) = st \<and>
       ResetIndex \<notin> set (snd (snd (ingest E st url))) \<and>
       (\<forall>e c. AddDocuments e c \<notin> set (snd (snd (ingest E st url)))))"
  unfolding ingest_def Let_def
  by (auto split: option.splits if_splits sum.splits)

lemma demo_not_blank: "\<not> blank ''grace period''"
  by (simp add: blank_def isspace_def)

lemma demo_arith: "arith demo_env = exact32"
  by (simp add: demo_env_def)

lemma demo_ingest:
  "ingest demo_env demo_store ''policy.pdf'' = (None, policy_store, policy_calls)"
  by (simp add: ingest_def demo_env_def demo_not_blank Let_def reset_index_def
      index_reset_def add_documents_def index_add_def to_float32_array_def demo_store_eq
      policy_store_def policy_calls_def CHUNK_SIZE_def CHUNK_OVERLAP_def exact32_def
      FLT_MAX_def)

lemma policy_search:
  "search exact32 (index_search exact32) policy_store [5] 10 =
     Inr [\<lparr>result_text = ''grace'', metadata = Map.empty, distance = 0\<rparr>,
          \<lparr>result_text = ''period'', metadata = Map.empty, distance = 1\<rparr>]"
  "search exact32 (index_search exact32) policy_store [6] 10 =
     Inr [\<lparr>result_text = ''period'', metadata = Map.empty, distance = 0\<rparr>,
          \<lparr>result_text = ''grace'', metadata = Map.empty, distance = 1\<rparr>]"
  "search exact32 (index_search exact32) policy_store [4] 10 =
     Inr [\<lparr>result_text = ''grace'', metadata = Map.empty, distance = 1\<rparr>,
          \<lparr>result_text = ''period'', metadata = Map.empty, distance = 4\<rparr>]"
  by (simp_all add: search_def index_search_def candidates_def policy_store_def ntotal_def
      exact32_def finite_values_def admit_def FLT_MAX_def upt_rec py_getitem_def
      eval_nat_numeral)

text \<open>
  Claim C6. After \<open>reset_index\<close> the index holds no vector, the texts and metadatas
  are empty and \<open>search\<close> returns the empty list for every query and \<open>k\<close>; the reset
  manager is exactly a newly built one of the same dimension. Hence what a reset
  followed by \<open>add_documents\<close> leaves does not depend on what was stored before, every
  text a later search returns is one of the texts just added, and a run whose
  ingestion succeeds leaves the same store, and finds only chunks of its own document,
  whatever document was ingested before.
\<close>

theorem reset_index_isolates:
  "ntotal (index (reset_index st)) = 0 \<and>
   texts (reset_index st) = [] \<and> metadatas (reset_index st) = [] \<and>
   search N lib (reset_index st) q k = Inr [] \<and>
   reset_index st = new_manager (d (index st)) \<and>
   add_documents N (reset_index st) embeddings txts metas =
     add_documents N (new_manager (d (index st))) embeddings txts metas \<and>
   (\<forall>res. search N lib (snd (add_documents N (reset_index st) embeddings txts metas)) q k
            = Inr res \<longrightarrow>
          set (map result_text res) \<subseteq> set txts) \<and>
   (\<forall>st' made. ingest E st url = (None, st', made) \<longrightarrow>
      ingest E (new_manager (d (index st))) url = (None, st', made) \<and>
      (\<forall>res. search N lib st' q k = Inr res \<longrightarrow>
         (\<exists>document_text. extract_text_from_document E url = Some document_text \<and>
            set (map result_text res) \<subseteq>
            set (split_text_into_chunks E document_text CHUNK_SIZE CHUNK_OVERLAP))))"
proof (intro conjI allI impI)
  show "ntotal (index (reset_index st)) = 0"
    by (simp add: reset_index_def index_reset_def ntotal_def)
  show "texts (reset_index st) = []" by (simp add: reset_index_def)
  show "metadatas (reset_index st) = []" by (simp add: reset_index_def)
  show "search N lib (reset_index st) q k = Inr []"
    by (simp add: search_def reset_index_def index_reset_def ntotal_def)
  show "reset_index st = new_manager (d (index st))" by (rule reset_index_fresh)
  show "add_documents N (reset_index st) embeddings txts metas =
     add_documents N (new_manager (d (index st))) embeddings txts metas"
    by (simp only: reset_index_fresh)
  show "set (map result_text res) \<subseteq> set txts"
    if "search N lib (snd (add_documents N (reset_index st) embeddings txts metas)) q k = Inr res"
    for res
    using search_texts[OF that] add_documents_reset_texts[of N st embeddings txts metas]
    by blast
next
  fix st' made
  assume ing: "ingest E st url = (None, st', made)"
  have fresh: "reset_index (new_manager (d (index st))) = reset_index st"
    by (simp add: reset_index_def new_manager_def index_reset_def)
  have same: "ingest E (new_manager (d (index st))) url = ingest E st url"
    if "fst (ingest E st url) = None"
    using that unfolding ingest_def Let_def fresh
    by (auto split: option.splits if_splits sum.splits)
  show "ingest E (new_manager (d (index st))) url = (None, st', made)"
    using same ing by simp
  fix res
  assume res: "search N lib st' q k = Inr res"
  from ingest_None[OF ing] obtain document_text chunk_embeddings where
    ex: "extract_text_from_document E url = Some document_text" and
    add: "add_documents (arith E) (reset_index st) chunk_embeddings
            (split_text_into_chunks E document_text CHUNK_SIZE CHUNK_OVERLAP) None
          = (None, st')"
    by blast
  have "set (texts st') \<subseteq>
        set (split_text_into_chunks E document_text CHUNK_SIZE CHUNK_OVERLAP)"
    using add_documents_reset_texts[of "arith E" st chunk_embeddings
        "split_text_into_chunks E document_text CHUNK_SIZE CHUNK_OVERLAP" None] add
    by simp
  with search_texts[OF res] ex
  show "\<exists>document_text. extract_text_from_document E url = Some document_text \<and>
            set (map result_text res) \<subseteq>
            set (split_text_into_chunks E document_text CHUNK_SIZE CHUNK_OVERLAP)"
    by blast
qed

theorem reset_index_isolates_witness:
  "ingest demo_env demo_store ''policy.pdf'' = (None, policy_store, policy_calls) \<and>
   ingest demo_env (new_manager 1) ''policy.pdf'' = (None, policy_store, policy_calls) \<and>
   search exact32 (index_search exact32) policy_store [5] 10 =
     Inr [\<lparr>result_text = ''grace'', metadata = Map.empty, distance = 0\<rparr>,
          \<lparr>result_text = ''period'', metadata = Map.empty, distance = 1\<rparr>] \<and>
   search exact32 (index_search exact32) (reset_index demo_store) [5] 10 = Inr [] \<and>
   ntotal (index (reset_index demo_store)) = 0"
proof -
  note t = reset_index_isolates[where st = demo_store and N = exact32
      and lib = "index_search exact32" and q = "[5]" and k = 10 and embeddings = "[]"
      and txts = "[]" and metas = None and E = demo_env and url = "''policy.pdf''"]
  from t have "ingest demo_env (new_manager (d (index demo_store))) ''policy.pdf'' =
      (None, policy_store, policy_calls)"
    using demo_ingest by blast
  then have "ingest demo_env (new_manager 1) ''policy.pdf'' =
      (None, policy_store, policy_calls)"
    by (simp add: demo_store_eq)
  moreover from t have "search exact32 (index_search exact32) (reset_index demo_store) [5] 10 = Inr []"
    and "ntotal (index (reset_index demo_store)) = 0" by blast+
  ultimately show ?thesis using demo_ingest policy_search(1) by simp
qed

section \<open>Authentication\<close>

lemma split_space_not_Nil: "split_space s \<noteq> []"
  by (induction s) (auto split: list.splits)

lemma split_space_one:
  "split_space s = [w] \<longleftrightarrow> s = w \<and> CHR '' '' \<notin> set w"
proof (induction s arbitrary: w)
  case Nil
  then show ?case by auto
next
  case (Cons c cs)
  show ?case
  proof (cases "c = CHR '' ''")
    case True
    then show ?thesis using split_space_not_Nil[of cs] by auto
  next
    case False
    obtain v vs where sp: "split_space cs = v # vs"
      using split_space_not_Nil[of cs] by (cases "split_space cs") auto
    have "split_space (c # cs) = [w] \<longleftrightarrow> w = c # v \<and> vs = []"
      using False sp by auto
    also have "\<dots> \<longleftrightarrow> (\<exists>w'. w = c # w' \<and> split_space cs = [w'])"
      using sp by auto
    also have "\<dots> \<longleftrightarrow> (\<exists>w'. w = c # w' \<and> cs = w' \<and> CHR '' '' \<notin> set w')"
      by (simp add: Cons.IH)
    also have "\<dots> \<longleftrightarrow> c # cs = w \<and> CHR '' '' \<notin> set w"
      using False by auto
    finally show ?thesis .
  qed
qed

lemma split_space_two:
  "split_space s = [a, b] \<longleftrightarrow>
     s = a @ CHR '' '' # b \<and> CHR '' '' \<notin> set a \<and> CHR '' '' \<notin> set b"
proof (induction s arbitrary: a)
  case Nil
  then show ?case by auto
next
  case (Cons c cs)
  show ?case
  proof (cases "c = CHR '' ''")
    case True
    have "split_space (c # cs) = [a, b] \<longleftrightarrow> a = [] \<and> split_space cs = [b]"
      using True by auto
    also have "\<dots> \<longleftrightarrow> a = [] \<and> cs = b \<and> CHR '' '' \<notin> set b"
      by (simp add: split_space_one)
    also have "\<dots> \<longleftrightarrow> c # cs = a @ CHR '' '' # b \<and> CHR '' '' \<notin> set a \<and> CHR '' '' \<notin> set b"
      using True by (cases a) auto
    finally show ?thesis .
  next
    case False
    obtain v vs where sp: "split_space cs = v # vs"
      using split_space_not_Nil[of cs] by (cases "split_space cs") auto
    have "split_space (c # cs) = [a, b] \<longleftrightarrow> a = c # v \<and> vs = [b]"
      using False sp by auto
    also have "\<dots> \<longleftrightarrow> (\<exists>a'. a = c # a' \<and> split_space cs = [a', b])"
      using sp by auto
    also have "\<dots> \<longleftrightarrow> (\<exists>a'. a = c # a' \<and> cs = a' @ CHR '' '' # b \<and>
                          CHR '' '' \<notin> set a' \<and> CHR '' '' \<notin> set b)"
      by (simp add: Cons.IH)
    also have "\<dots> \<longleftrightarrow> c # cs = a @ CHR '' '' # b \<and> CHR '' '' \<notin> set a \<and> CHR '' '' \<notin> set b"
      using False by (cases a) auto
    finally show ?thesis .
  qed
qed

lemma lower_bearer_no_space:
  assumes "lower s = ''bearer''"
  shows "CHR '' '' \<notin> set s"
proof
  assume "CHR '' '' \<in> set s"
  then have "lower_char (CHR '' '') \<in> set (lower s)" by (simp add: lower_def)
  then have "CHR '' '' \<in> set ''bearer''"
    using assms by (simp add: lower_char_def)
  then show False by simp
qed

lemma check_authorization_None:
  "check_authorization secret auth_header = None \<longleftrightarrow>
     (\<exists>scheme. auth_header = Some (scheme @ '' '' @ secret) \<and>
        lower scheme = ''bearer'' \<and> CHR '' '' \<notin> set secret)"
proof
  assume ok: "check_authorization secret auth_header = None"
  then obtain h where h: "auth_header = Some h" "h \<noteq> []"
    by (auto simp: check_authorization_def split: option.splits if_splits)
  from ok h obtain token_type token where sp: "split_space h = [token_type, token]"
    and ty: "lower token_type = ''bearer''" and tk: "token = secret"
    by (auto simp: check_authorization_def split: list.splits if_splits)
  from sp have "h = token_type @ '' '' @ token" "CHR '' '' \<notin> set token"
    by (simp_all add: split_space_two)
  with h ty tk show "\<exists>scheme. auth_header = Some (scheme @ '' '' @ secret) \<and>
        lower scheme = ''bearer'' \<and> CHR '' '' \<notin> set secret" by blast
next
  assume "\<exists>scheme. auth_header = Some (scheme @ '' '' @ secret) \<and>
        lower scheme = ''bearer'' \<and> CHR '' '' \<notin> set secret"
  then obtain scheme where h: "auth_header = Some (scheme @ '' '' @ secret)"
    and ty: "lower scheme = ''bearer''" and ns: "CHR '' '' \<notin> set secret" by blast
  have "split_space (scheme @ '' '' @ secret) = [scheme, secret]"
    using lower_bearer_no_space[OF ty] ns by (simp add: split_space_two)
  then show "check_authorization secret auth_header = None"
    using h ty by (simp add: check_authorization_def)
qed

lemma check_authorization_401:
  "check_authorization secret auth_header = Some r \<Longrightarrow> \<exists>detail. r = HTTPException 401 detail"
  by (auto simp: check_authorization_def split: option.splits if_splits list.splits)

lemma ingest_no_401:
  "fst (ingest E st url) \<noteq> Some (HTTPException 401 detail)"
  by (auto simp: ingest_def Let_def extraction_failed_def chunking_failed_def
      split: option.splits if_splits sum.splits)

lemma ingest_first_call:
  "snd (snd (ingest E st url)) \<noteq> [] \<and> hd (snd (snd (ingest E st url))) = Extract url"
  by (auto simp: ingest_def Let_def split: option.splits if_splits sum.splits)

lemma answer_questions_no_401:
  "fst (answer_questions E st qs) \<noteq> HTTPException 401 detail"
  by (auto simp: answer_questions_def split: prod.splits option.splits sum.splits)

lemma run_rejected:
  "check_authorization (REQUIRED_AUTH_TOKEN E) auth_header = Some r \<Longrightarrow>
   run_hackrx_submission E st auth_header payload =
     \<lparr>response = r, manager = st, calls = [], llm_tasks = []\<rparr>"
  by (simp add: run_hackrx_submission_def)

lemma run_admitted:
  assumes "check_authorization (REQUIRED_AUTH_TOKEN E) auth_header = None"
  shows "manager (run_hackrx_submission E st auth_header payload) =
           fst (snd (ingest E st (documents payload)))"
    and "calls (run_hackrx_submission E st auth_header payload) =
           snd (snd (ingest E st (documents payload)))"
    and "response (run_hackrx_submission E st auth_header payload) =
           (case fst (ingest E st (documents payload)) of
              Some r \<Rightarrow> r
            | None \<Rightarrow> fst (answer_questions E (fst (snd (ingest E st (documents payload))))
                            (questions payload)))"
    and "llm_tasks (run_hackrx_submission E st auth_header payload) =
           (case fst (ingest E st (documents payload)) of
              Some r \<Rightarrow> []
            | None \<Rightarrow> snd (answer_questions E (fst (snd (ingest E st (documents payload))))
                            (questions payload)))"
  using assms
  by (auto simp: run_hackrx_submission_def split: prod.splits option.splits)

lemma demo_lower: "lower ''Bearer'' = ''bearer''"
  by (simp add: lower_def lower_char_def char_of_def bit_iff_odd)

lemma demo_authorized:
  "check_authorization (REQUIRED_AUTH_TOKEN demo_env) (Some ''Bearer s3cret'') = None"
  by (simp add: check_authorization_def demo_env_def demo_lower)

text \<open>
  Claim C8. A request passes the check exactly when its \<open>Authorization\<close> header is a
  scheme that lower-cases to \<open>bearer\<close>, one space, and the configured token (a token
  holds no space, the header being split at spaces). A request that passes goes on to
  document extraction and is never answered 401. Any other request (no header, an
  empty one, not exactly two parts, another scheme, another token) is answered 401,
  and nothing else happens: no collaborator is called, the store is unchanged and no
  task is created.
\<close>

theorem authorization_gate:
  "(if \<exists>scheme. auth_header = Some (scheme @ '' '' @ REQUIRED_AUTH_TOKEN E) \<and>
         lower scheme = ''bearer'' \<and> CHR '' '' \<notin> set (REQUIRED_AUTH_TOKEN E)
    then calls (run_hackrx_submission E st auth_header payload) \<noteq> [] \<and>
         hd (calls (run_hackrx_submission E st auth_header payload))
           = Extract (documents payload) \<and>
         (\<forall>detail. response (run_hackrx_submission E st auth_header payload)
                     \<noteq> HTTPException 401 detail)
    else (\<exists>detail. response (run_hackrx_submission E st auth_header payload)
                     = HTTPException 401 detail) \<and>
         manager (run_hackrx_submission E st auth_header payload) = st \<and>
         calls (run_hackrx_submission E st auth_header payload) = [] \<and>
         llm_tasks (run_hackrx_submission E st auth_header payload) = [])"
proof (cases "check_authorization (REQUIRED_AUTH_TOKEN E) auth_header")
  case None
  then have adm: "\<exists>scheme. auth_header = Some (scheme @ '' '' @ REQUIRED_AUTH_TOKEN E) \<and>
         lower scheme = ''bearer'' \<and> CHR '' '' \<notin> set (REQUIRED_AUTH_TOKEN E)"
    by (simp only: check_authorization_None)
  have "response (run_hackrx_submission E st auth_header payload) \<noteq> HTTPException 401 detail"
    for detail
    using run_admitted(3)[OF None, of st payload]
      ingest_no_401[of E st "documents payload" detail]
      answer_questions_no_401[of E _ "questions payload" detail]
    by (auto split: option.splits)
  then show ?thesis
    using adm run_admitted(2)[OF None, of st payload]
      ingest_first_call[of E st "documents payload"]
    by (simp del: append.simps)
next
  case (Some r)
  then have rej: "\<not> (\<exists>scheme. auth_header = Some (scheme @ '' '' @ REQUIRED_AUTH_TOKEN E) \<and>
         lower scheme = ''bearer'' \<and> CHR '' '' \<notin> set (REQUIRED_AUTH_TOKEN E))"
    using check_authorization_None[of "REQUIRED_AUTH_TOKEN E" auth_header] by simp
  from check_authorization_401[OF Some] run_rejected[OF Some, of st payload] rej
  show ?thesis by (auto simp del: append.simps)
qed

theorem authorization_gate_witness:
  "hd (calls (run_hackrx_submission demo_env demo_store (Some ''Bearer s3cret'')
         demo_request)) = Extract ''policy.pdf'' \<and>
   calls (run_hackrx_submission demo_env demo_store (Some ''Bearer s3cret'')
         demo_request) \<noteq> [] \<and>
   (\<exists>detail. response (run_hackrx_submission demo_env demo_store None demo_request)
      = HTTPException 401 detail) \<and>
   manager (run_hackrx_submission demo_env demo_store None demo_request) = demo_store \<and>
   calls (run_hackrx_submission demo_env demo_store None demo_request) = [] \<and>
   (\<exists>detail. response (run_hackrx_submission demo_env demo_store
      (Some ''Bearer wrong-token'') demo_request) = HTTPException 401 detail) \<and>
   calls (run_hackrx_submission demo_env demo_store (Some ''Bearer wrong-token'')
      demo_request) = []"
proof -
  have yes: "\<exists>scheme. Some ''Bearer s3cret'' = Some (scheme @ '' '' @ REQUIRED_AUTH_TOKEN demo_env) \<and>
         lower scheme = ''bearer'' \<and> CHR '' '' \<notin> set (REQUIRED_AUTH_TOKEN demo_env)"
    using demo_lower by (intro exI[of _ "''Bearer''"]) (simp add: demo_env_def)
  have no: "\<not> (\<exists>scheme. None = Some (scheme @ '' '' @ REQUIRED_AUTH_TOKEN demo_env) \<and>
         lower scheme = ''bearer'' \<and> CHR '' '' \<notin> set (REQUIRED_AUTH_TOKEN demo_env))"
    by simp
  have wrong: "\<not> (\<exists>scheme. Some ''Bearer wrong-token''
           = Some (scheme @ '' '' @ REQUIRED_AUTH_TOKEN demo_env) \<and>
         lower scheme = ''bearer'' \<and> CHR '' '' \<notin> set (REQUIRED_AUTH_TOKEN demo_env))"
  proof
    assume "\<exists>scheme. Some ''Bearer wrong-token''
           = Some (scheme @ '' '' @ REQUIRED_AUTH_TOKEN demo_env) \<and>
         lower scheme = ''bearer'' \<and> CHR '' '' \<notin> set (REQUIRED_AUTH_TOKEN demo_env)"
    then have "check_authorization (REQUIRED_AUTH_TOKEN demo_env)
                 (Some ''Bearer wrong-token'') = None"
      by (simp only: check_authorization_None)
    then show False by (simp add: check_authorization_def demo_env_def demo_lower)
  qed
  from authorization_gate[of "Some ''Bearer s3cret''" demo_env demo_store demo_request] yes
  have a: "calls (run_hackrx_submission demo_env demo_store (Some ''Bearer s3cret'')
             demo_request) \<noteq> [] \<and>
           hd (calls (run_hackrx_submission demo_env demo_store (Some ''Bearer s3cret'')
             demo_request)) = Extract ''policy.pdf''"
    by (simp add: demo_request_def)
  from authorization_gate[of None demo_env demo_store demo_request] no
  have b: "(\<exists>detail. response (run_hackrx_submission demo_env demo_store None demo_request)
      = HTTPException 401 detail) \<and>
   manager (run_hackrx_submission demo_env demo_store None demo_request) = demo_store \<and>
   calls (run_hackrx_submission demo_env demo_store None demo_request) = []"
    by simp
  from authorization_gate[of "Some ''Bearer wrong-token''" demo_env demo_store demo_request]
    wrong
  have c: "(\<exists>detail. response (run_hackrx_submission demo_env demo_store
      (Some ''Bearer wrong-token'') demo_request) = HTTPException 401 detail) \<and>
   calls (run_hackrx_submission demo_env demo_store (Some ''Bearer wrong-token'')
      demo_request) = []"
    by simp
  from a b c show ?thesis by simp
qed

section \<open>Order of the ingestion steps\<close>

text \<open>
  Claim C10. A request that passes authentication and whose document yields no text
  or only whitespace, or whose text yields no chunk, is answered 400; the manager is
  the one the request found, so every search answers as before, \<open>reset_index\<close> has
  not been called and no task has been created.
\<close>

theorem failed_ingestion_keeps_index:
  assumes "check_authorization (REQUIRED_AUTH_TOKEN E) auth_header = None"
    and "extract_text_from_document E (documents payload) = None \<or>
         (\<exists>document_text.
            extract_text_from_document E (documents payload) = Some document_text \<and>
            (blank document_text \<or>
             split_text_into_chunks E document_text CHUNK_SIZE CHUNK_OVERLAP = []))"
  shows "(\<exists>detail. response (run_hackrx_submission E st auth_header payload)
                     = HTTPException 400 detail) \<and>
         manager (run_hackrx_submission E st auth_header payload) = st \<and>
         search N lib (manager (run_hackrx_submission E st auth_header payload)) q k
           = search N lib st q k \<and>
         ResetIndex \<notin> set (calls (run_hackrx_submission E st auth_header payload)) \<and>
         llm_tasks (run_hackrx_submission E st auth_header payload) = []"
proof -
  from assms(2) have ing:
    "(\<exists>detail. fst (ingest E st (documents payload)) = Some (HTTPException 400 detail)) \<and>
     fst (snd (ingest E st (documents payload))) = st \<and>
     ResetIndex \<notin> set (snd (snd (ingest E st (documents payload))))"
    by (cases "extract_text_from_document E (documents payload)")
       (auto simp: ingest_def Let_def extraction_failed_def chunking_failed_def)
  then obtain detail where
    r: "fst (ingest E st (documents payload)) = Some (HTTPException 400 detail)" by blast
  note adm = run_admitted[OF assms(1), of st payload]
  have "response (run_hackrx_submission E st auth_header payload) = HTTPException 400 detail"
    using adm(3) r by simp
  moreover have "manager (run_hackrx_submission E st auth_header payload) = st"
    using adm(1) ing by simp
  moreover have "ResetIndex \<notin> set (calls (run_hackrx_submission E st auth_header payload))"
    using adm(2) ing by simp
  moreover have "llm_tasks (run_hackrx_submission E st auth_header payload) = []"
    using adm(4) r by simp
  ultimately show ?thesis by simp
qed

theorem failed_ingestion_keeps_index_witness:
  "check_authorization (REQUIRED_AUTH_TOKEN demo_env) (Some ''Bearer s3cret'') = None \<and>
   extract_text_from_document demo_env ''blank.pdf'' = Some '' '' \<and> blank '' '' \<and>
   (\<exists>detail. response (run_hackrx_submission demo_env demo_store (Some ''Bearer s3cret'')
       \<lparr>documents = ''blank.pdf'', questions = [''grace?'']\<rparr>) = HTTPException 400 detail) \<and>
   manager (run_hackrx_submission demo_env demo_store (Some ''Bearer s3cret'')
       \<lparr>documents = ''blank.pdf'', questions = [''grace?'']\<rparr>) = demo_store \<and>
   ResetIndex \<notin> set (calls (run_hackrx_submission demo_env demo_store
       (Some ''Bearer s3cret'') \<lparr>documents = ''blank.pdf'', questions = [''grace?'']\<rparr>))"
proof -
  have ex: "extract_text_from_document demo_env ''blank.pdf'' = Some '' ''"
    by (simp add: demo_env_def)
  have bl: "blank '' ''" by (simp add: blank_def isspace_def)
  have "extract_text_from_document demo_env
          (documents \<lparr>documents = ''blank.pdf'', questions = [''grace?'']\<rparr>) = None \<or>
        (\<exists>document_text. extract_text_from_document demo_env
            (documents \<lparr>documents = ''blank.pdf'', questions = [''grace?'']\<rparr>)
              = Some document_text \<and>
            (blank document_text \<or>
             split_text_into_chunks demo_env document_text CHUNK_SIZE CHUNK_OVERLAP = []))"
    using ex bl by simp
  from failed_ingestion_keeps_index[OF demo_authorized this, of demo_store exact32
      "index_search exact32" "[0]" 1]
    demo_authorized ex bl
  show ?thesis by simp
qed

text \<open>
  Claim C4, as the code has it. A run that touches the index has made exactly these
  calls, in this order: extraction, chunking, one embedding call for all chunks,
  \<open>reset_index\<close>, \<open>add_documents\<close>; and \<open>add_documents\<close> works on the manager that
  \<open>reset_index\<close> returned. The reset comes after chunking and embedding, not first.
\<close>

theorem ingestion_call_order:
  assumes "ResetIndex \<in> set (calls (run_hackrx_submission E st auth_header payload)) \<or>
           (\<exists>e c. AddDocuments e c
                    \<in> set (calls (run_hackrx_submission E st auth_header payload)))"
  shows "\<exists>document_text text_chunks chunk_embeddings.
           extract_text_from_document E (documents payload) = Some document_text \<and>
           text_chunks = split_text_into_chunks E document_text CHUNK_SIZE CHUNK_OVERLAP \<and>
           get_embeddings E text_chunks = Inr chunk_embeddings \<and>
           calls (run_hackrx_submission E st auth_header payload) =
             [Extract (documents payload),
              Split document_text CHUNK_SIZE CHUNK_OVERLAP,
              Embed text_chunks,
              ResetIndex,
              AddDocuments chunk_embeddings text_chunks] \<and>
           manager (run_hackrx_submission E st auth_header payload) =
             snd (add_documents (arith E) (reset_index st) chunk_embeddings text_chunks None)"
proof (cases "check_authorization (REQUIRED_AUTH_TOKEN E) auth_header")
  case (Some r)
  with assms show ?thesis by (simp add: run_rejected)
next
  case None
  note adm = run_admitted[OF None, of st payload]
  from assms adm(2) have touched:
    "ResetIndex \<in> set (snd (snd (ingest E st (documents payload)))) \<or>
     (\<exists>e c. AddDocuments e c \<in> set (snd (snd (ingest E st (documents payload)))))"
    by simp
  from ingest_calls[of E "documents payload" st] touched
  obtain document_text chunk_embeddings where
    "extract_text_from_document E (documents payload) = Some document_text"
    "get_embeddings E (split_text_into_chunks E document_text CHUNK_SIZE CHUNK_OVERLAP)
        = Inr chunk_embeddings"
    "fst (snd (ingest E st (documents payload))) =
        snd (add_documents (arith E) (reset_index st) chunk_embeddings
          (split_text_into_chunks E document_text CHUNK_SIZE CHUNK_OVERLAP) None)"
    "snd (snd (ingest E st (documents payload))) =
        [Extract (documents payload), Split document_text CHUNK_SIZE CHUNK_OVERLAP,
         Embed (split_text_into_chunks E document_text CHUNK_SIZE CHUNK_OVERLAP),
         ResetIndex,
         AddDocuments chunk_embeddings
           (split_text_into_chunks E document_text CHUNK_SIZE CHUNK_OVERLAP)]"
    by blast
  with adm(1,2) show ?thesis by simp
qed

lemma demo_run_calls:
  "calls (run_hackrx_submission demo_env demo_store (Some ''Bearer s3cret'') demo_request)
     = [Extract ''policy.pdf'', Split ''grace period'' 1000 200,
        Embed [''grace'', ''period''], ResetIndex,
        AddDocuments [[5], [6]] [''grace'', ''period'']]"
  using run_admitted(2)[OF demo_authorized, of demo_store demo_request] demo_ingest
  by (simp add: demo_request_def policy_calls_def)

theorem ingestion_call_order_witness:
  "ResetIndex \<in> set (calls (run_hackrx_submission demo_env demo_store
       (Some ''Bearer s3cret'') demo_request)) \<and>
   (\<exists>document_text text_chunks chunk_embeddings.
      extract_text_from_document demo_env ''policy.pdf'' = Some document_text \<and>
      text_chunks = split_text_into_chunks demo_env document_text CHUNK_SIZE CHUNK_OVERLAP \<and>
      get_embeddings demo_env text_chunks = Inr chunk_embeddings \<and>
      calls (run_hackrx_submission demo_env demo_store (Some ''Bearer s3cret'')
         demo_request) =
        [Extract ''policy.pdf'', Split document_text CHUNK_SIZE CHUNK_OVERLAP,
         Embed text_chunks, ResetIndex, AddDocuments chunk_embeddings text_chunks] \<and>
      manager (run_hackrx_submission demo_env demo_store (Some ''Bearer s3cret'')
         demo_request) =
        snd (add_documents exact32 (reset_index demo_store) chunk_embeddings text_chunks None))"
proof -
  have r: "ResetIndex \<in> set (calls (run_hackrx_submission demo_env demo_store
       (Some ''Bearer s3cret'') demo_request))"
    by (simp add: demo_run_calls)
  then have "ResetIndex \<in> set (calls (run_hackrx_submission demo_env demo_store
       (Some ''Bearer s3cret'') demo_request)) \<or>
     (\<exists>e c. AddDocuments e c \<in> set (calls (run_hackrx_submission demo_env demo_store
       (Some ''Bearer s3cret'') demo_request)))" by (rule disjI1)
  from ingestion_call_order[OF this] r show ?thesis
    by (simp add: demo_request_def demo_arith)
qed

text \<open>
  The claim as stated fails: in this run the chunker and the embedding model are called
  before \<open>reset_index\<close>.
\<close>

theorem reset_after_embedding_counterexample:
  "calls (run_hackrx_submission demo_env demo_store (Some ''Bearer s3cret'') demo_request)
     = [Extract ''policy.pdf'', Split ''grace period'' 1000 200,
        Embed [''grace'', ''period''], ResetIndex,
        AddDocuments [[5], [6]] [''grace'', ''period'']] \<and>
   hd (calls (run_hackrx_submission demo_env demo_store (Some ''Bearer s3cret'')
         demo_request)) \<noteq> ResetIndex"
  by (simp add: demo_run_calls)

section \<open>Tasks and answers\<close>

lemma prepare_tasks_acc:
  "prepare_tasks E st qs acc =
     (fst (prepare_tasks E st qs []), acc @ snd (prepare_tasks E st qs []))"
proof (induction qs arbitrary: acc)
  case Nil
  then show ?case by simp
next
  case (Cons q qs)
  show ?case
  proof (cases "prepare_task E st q")
    case (Inl e)
    then show ?thesis by simp
  next
    case (Inr t)
    have "prepare_tasks E st (q # qs) acc = prepare_tasks E st qs (acc @ [t])"
      using Inr by simp
    also have "\<dots> = (fst (prepare_tasks E st qs []),
                       (acc @ [t]) @ snd (prepare_tasks E st qs []))"
      by (rule Cons.IH)
    finally have l: "prepare_tasks E st (q # qs) acc =
        (fst (prepare_tasks E st qs []), acc @ t # snd (prepare_tasks E st qs []))"
      by simp
    have "prepare_tasks E st (q # qs) [] = prepare_tasks E st qs [t]"
      using Inr by simp
    also have "\<dots> = (fst (prepare_tasks E st qs []), [t] @ snd (prepare_tasks E st qs []))"
      by (rule Cons.IH)
    finally have r: "prepare_tasks E st (q # qs) [] =
        (fst (prepare_tasks E st qs []), t # snd (prepare_tasks E st qs []))"
      by simp
    show ?thesis by (simp only: l r fst_conv snd_conv)
  qed
qed

lemma prepare_tasks_Cons:
  "prepare_tasks E st (q # qs) [] =
     (case prepare_task E st q of
        Inl e \<Rightarrow> (Some e, [])
      | Inr t \<Rightarrow> (fst (prepare_tasks E st qs []), t # snd (prepare_tasks E st qs [])))"
proof (cases "prepare_task E st q")
  case (Inl e)
  then show ?thesis by simp
next
  case (Inr t)
  then have "prepare_tasks E st (q # qs) [] = prepare_tasks E st qs [t]" by simp
  also have "\<dots> = (fst (prepare_tasks E st qs []), [t] @ snd (prepare_tasks E st qs []))"
    by (rule prepare_tasks_acc)
  finally show ?thesis using Inr by simp
qed

lemma prepare_tasks_None:
  "prepare_tasks E st qs [] = (None, tasks) \<longleftrightarrow> map (prepare_task E st) qs = map Inr tasks"
proof (induction qs arbitrary: tasks)
  case Nil
  then show ?case by auto
next
  case (Cons q qs)
  show ?case
  proof (cases "prepare_task E st q")
    case (Inl e)
    then show ?thesis by auto
  next
    case (Inr t)
    obtain e ts where rest: "prepare_tasks E st qs [] = (e, ts)" by (cases "prepare_tasks E st qs []")
    show ?thesis
    proof (cases e)
      case None
      with rest Cons.IH[of ts] have m: "map (prepare_task E st) qs = map Inr ts" by simp
      show ?thesis using Inr rest None m
        by (auto simp: prepare_tasks_Cons inj_map_eq_map[OF inj_Inr]
            simp del: prepare_tasks.simps)
    next
      case (Some e')
      have "map (prepare_task E st) qs \<noteq> map Inr ts'" for ts'
        using Cons.IH[of ts'] rest Some by auto
      then show ?thesis using Inr rest Some
        by (auto simp: prepare_tasks_Cons simp del: prepare_tasks.simps)
    qed
  qed
qed

lemma prepare_tasks_Some:
  "fst (prepare_tasks E st qs []) = Some e \<Longrightarrow> \<exists>q \<in> set qs. prepare_task E st q = Inl e"
proof (induction qs)
  case Nil
  then show ?case by simp
next
  case (Cons q qs)
  then show ?case
    by (cases "prepare_task E st q")
       (auto simp: prepare_tasks_Cons simp del: prepare_tasks.simps)
qed

lemma gather_Inr:
  "gather E tasks = Inr answers \<longleftrightarrow> map (run_task E) tasks = map Inr answers"
proof (induction tasks arbitrary: answers)
  case Nil
  then show ?case by auto
next
  case (Cons t ts)
  show ?case
  proof (cases "run_task E t")
    case (Inl e)
    then show ?thesis by auto
  next
    case (Inr a)
    show ?thesis
    proof (cases "gather E ts")
      case (Inl e)
      have "map (run_task E) ts \<noteq> map Inr as" for as
        using Cons.IH[of as] Inl by auto
      then show ?thesis using Inr Inl by auto
    next
      case r: (Inr as)
      with Cons.IH[of as] have "map (run_task E) ts = map Inr as" by simp
      then show ?thesis using Inr r by (auto simp: inj_map_eq_map[OF inj_Inr])
    qed
  qed
qed

lemma gather_Inl:
  "gather E tasks = Inl e \<Longrightarrow> \<exists>t \<in> set tasks. run_task E t = Inl e"
proof (induction tasks)
  case Nil
  then show ?case by simp
next
  case (Cons t ts)
  then show ?case by (auto split: sum.splits)
qed

lemma answer_questions_RunResponse:
  "answer_questions E st qs = (RunResponse answers, tasks) \<longleftrightarrow>
     map (prepare_task E st) qs = map Inr tasks \<and>
     map (run_task E) tasks = map Inr answers"
proof -
  obtain e ts where p: "prepare_tasks E st qs [] = (e, ts)"
    by (cases "prepare_tasks E st qs []")
  show ?thesis
  proof (cases e)
    case (Some e')
    have "map (prepare_task E st) qs \<noteq> map Inr tasks"
      using prepare_tasks_None[of E st qs tasks] p Some by simp
    then show ?thesis using p Some by (simp add: answer_questions_def)
  next
    case None
    have m: "map (prepare_task E st) qs = map Inr ts"
      using prepare_tasks_None[of E st qs ts] p None by simp
    have eq: "map (prepare_task E st) qs = map Inr tasks \<longleftrightarrow> tasks = ts"
      using m by (auto simp: inj_map_eq_map[OF inj_Inr])
    show ?thesis
    proof (cases "gather E ts")
      case (Inl e')
      have "map (run_task E) ts \<noteq> map Inr answers"
        using gather_Inr[of E ts answers] Inl by simp
      then show ?thesis using p None Inl eq by (auto simp: answer_questions_def)
    next
      case (Inr as)
      have "map (run_task E) ts = map Inr answers \<longleftrightarrow> as = answers"
        using gather_Inr[of E ts answers] Inr by auto
      then show ?thesis using p None Inr eq by (auto simp: answer_questions_def)
    qed
  qed
qed

lemma answer_questions_tasks:
  "fst (answer_questions E st qs) = RunResponse answers \<Longrightarrow>
   answer_questions E st qs = (RunResponse answers, snd (answer_questions E st qs))"
  by (cases "answer_questions E st qs") simp

lemma demo_fallback_task:
  "prepare_task demo_env (new_manager n) question = Inr (Sleep0 (not_found question))"
  by (simp add: prepare_task_def demo_env_def search_def new_manager_def ntotal_def)

lemma demo_fallback_run:
  "answer_questions demo_env (new_manager 1) [''grace?'', ''Mars?'', ''x''] =
     (RunResponse [not_found ''grace?'', not_found ''Mars?'', not_found ''x''],
      [Sleep0 (not_found ''grace?''), Sleep0 (not_found ''Mars?''),
       Sleep0 (not_found ''x'')])"
  by (simp add: answer_questions_def demo_fallback_task)

lemma demo_generate_tasks:
  "prepare_task demo_env policy_store ''grace?'' =
     Inr (GenerateAnswer ''grace?'' [''period'', ''grace''])"
  "prepare_task demo_env policy_store ''Mars?'' =
     Inr (GenerateAnswer ''Mars?'' [''grace'', ''period''])"
  "prepare_task demo_env policy_store ''fail'' =
     Inr (GenerateAnswer ''fail'' [''grace'', ''period''])"
  by (simp_all add: prepare_task_def demo_env_def policy_search TOP_K_RETRIEVAL_def)

lemma demo_generate_run:
  "answer_questions demo_env policy_store [''grace?'', ''Mars?''] =
     (RunResponse [''re: grace?'', ''re: Mars?''],
      [GenerateAnswer ''grace?'' [''period'', ''grace''],
       GenerateAnswer ''Mars?'' [''grace'', ''period'']])"
proof -
  have "generate_answer demo_env ''grace?'' [''period'', ''grace''] = Inr ''re: grace?''"
    "generate_answer demo_env ''Mars?'' [''grace'', ''period''] = Inr ''re: Mars?''"
    by (simp_all add: demo_env_def)
  then show ?thesis by (simp add: answer_questions_def demo_generate_tasks)
qed

lemma ingest_no_answers: "fst (ingest E st url) \<noteq> Some (RunResponse answers)"
  by (auto simp: ingest_def Let_def extraction_failed_def chunking_failed_def
      split: option.splits if_splits sum.splits)

lemma run_answers:
  assumes "response (run_hackrx_submission E st auth_header payload) = RunResponse answers"
  shows "answer_questions E (manager (run_hackrx_submission E st auth_header payload))
           (questions payload) =
         (RunResponse answers, llm_tasks (run_hackrx_submission E st auth_header payload))"
proof (cases "check_authorization (REQUIRED_AUTH_TOKEN E) auth_header")
  case (Some r)
  with check_authorization_401[OF Some] assms show ?thesis
    by (auto simp: run_rejected)
next
  case None
  note adm = run_admitted[OF None, of st payload]
  show ?thesis
  proof (cases "fst (ingest E st (documents payload))")
    case (Some r)
    with adm(3) assms ingest_no_answers[of E st "documents payload" answers]
    show ?thesis by simp
  next
    case n: None
    with adm assms show ?thesis
      by (cases "answer_questions E (fst (snd (ingest E st (documents payload))))
                   (questions payload)") simp
  qed
qed

lemma unit_in_batch:
  assumes "map (prepare_task E st) qs = map Inr tasks"
    and "map (run_task E) tasks = map Inr answers"
    and "q \<in> set qs"
  shows "\<exists>a. question_unit E st q = Inr a"
proof -
  from assms(3) obtain i where i: "i < length qs" "qs ! i = q"
    by (auto simp: in_set_conv_nth)
  from assms(1) have lt: "length tasks = length qs" by (metis length_map)
  from assms(2) have la: "length answers = length tasks" by (metis length_map)
  have "map (prepare_task E st) qs ! i = map Inr tasks ! i" by (simp only: assms(1))
  then have p: "prepare_task E st q = Inr (tasks ! i)" using i lt by simp
  have "map (run_task E) tasks ! i = map Inr answers ! i" by (simp only: assms(2))
  then have "run_task E (tasks ! i) = Inr (answers ! i)" using i lt la by simp
  with p show ?thesis by (simp add: question_unit_def)
qed

lemma answer_questions_cases:
  "(\<exists>answers. fst (answer_questions E st qs) = RunResponse answers) \<or>
   fst (answer_questions E st qs) = InternalServerError"
  by (auto simp: answer_questions_def split: prod.splits option.splits sum.splits)

lemma answer_questions_error:
  assumes "fst (answer_questions E st qs) = InternalServerError"
  shows "\<exists>q \<in> set qs. \<exists>e. question_unit E st q = Inl e"
proof -
  obtain e ts where p: "prepare_tasks E st qs [] = (e, ts)"
    by (cases "prepare_tasks E st qs []")
  show ?thesis
  proof (cases e)
    case (Some e')
    with p have "fst (prepare_tasks E st qs []) = Some e'" by simp
    from prepare_tasks_Some[OF this] obtain q where q: "q \<in> set qs"
      "prepare_task E st q = Inl e'" by blast
    from q(2) have "question_unit E st q = Inl e'" by (simp add: question_unit_def)
    with q(1) show ?thesis by blast
  next
    case None
    with p have m: "map (prepare_task E st) qs = map Inr ts"
      by (simp add: prepare_tasks_None)
    from assms p None obtain e' where "gather E ts = Inl e'"
      by (auto simp: answer_questions_def split: sum.splits)
    from gather_Inl[OF this] obtain t where t: "t \<in> set ts" "run_task E t = Inl e'"
      by blast
    then obtain i where i: "i < length ts" "ts ! i = t" by (auto simp: in_set_conv_nth)
    from m have l: "length ts = length qs" by (metis length_map)
    have "map (prepare_task E st) qs ! i = map Inr ts ! i" by (simp only: m)
    then have "prepare_task E st (qs ! i) = Inr t" using i l by simp
    with t have "question_unit E st (qs ! i) = Inl e'" by (simp add: question_unit_def)
    moreover have "qs ! i \<in> set qs" using i l by simp
    ultimately show ?thesis by blast
  qed
qed

text \<open>
  Claim C2. The questions are answered whenever no unit fails; and when they are,
  there are as many answers and as many tasks as questions, and position \<open>i\<close> of each
  belongs to question \<open>i\<close>: task \<open>i\<close> is the task prepared for question \<open>i\<close> and answer
  \<open>i\<close> is its result. For a question whose search returns nothing the task is the
  immediate \<open>Sleep0\<close> task, which yields its text whatever the answer client is, and
  the answer is the sentence \<open>Information for '<question>' not found in document.\<close>
  with the question in place; for any other question the task is the call of
  \<open>generate_answer\<close> on the question and the retrieved texts, and the answer is what
  that call returns. By \<open>run_answers\<close> the answers of a run are those of
  \<open>answer_questions\<close> on the manager the run leaves.
\<close>

theorem answers_follow_questions:
  "((\<forall>q \<in> set qs. \<exists>a. question_unit E st q = Inr a) \<longrightarrow>
      (\<exists>answers tasks. answer_questions E st qs = (RunResponse answers, tasks))) \<and>
   (answer_questions E st qs = (RunResponse answers, tasks) \<longrightarrow>
      length answers = length qs \<and> length tasks = length qs \<and>
      (\<forall>i < length qs.
         prepare_task E st (qs ! i) = Inr (tasks ! i) \<and>
         run_task E (tasks ! i) = Inr (answers ! i) \<and>
         (\<forall>v vs. get_embeddings E [qs ! i] = Inr (v # vs) \<and>
                 search (arith E) (faiss_search E) st v 10 = Inr [] \<longrightarrow>
                 answers ! i =
                   ''Information for '' @ [CHR 0x27] @ qs ! i @ [CHR 0x27]
                   @ '' not found in document.'' \<and>
                 tasks ! i = Sleep0 (answers ! i) \<and>
                 (\<forall>E'. run_task E' (tasks ! i) = Inr (answers ! i))) \<and>
         (\<forall>v vs res. get_embeddings E [qs ! i] = Inr (v # vs) \<and>
                 search (arith E) (faiss_search E) st v 10 = Inr res \<and> res \<noteq> [] \<longrightarrow>
                 tasks ! i = GenerateAnswer (qs ! i) (map result_text res) \<and>
                 generate_answer E (qs ! i) (map result_text res) = Inr (answers ! i))))"
proof (intro conjI impI)
  assume ok: "\<forall>q \<in> set qs. \<exists>a. question_unit E st q = Inr a"
  have "fst (answer_questions E st qs) \<noteq> InternalServerError"
  proof
    assume "fst (answer_questions E st qs) = InternalServerError"
    from answer_questions_error[OF this] ok show False by fastforce
  qed
  with answer_questions_cases[of E st qs]
  obtain answers where "fst (answer_questions E st qs) = RunResponse answers" by blast
  then have "answer_questions E st qs = (RunResponse answers, snd (answer_questions E st qs))"
    by (rule answer_questions_tasks)
  then show "\<exists>answers tasks. answer_questions E st qs = (RunResponse answers, tasks)"
    by blast
next
  assume run: "answer_questions E st qs = (RunResponse answers, tasks)"
  from run have p: "map (prepare_task E st) qs = map Inr tasks"
    and g: "map (run_task E) tasks = map Inr answers"
    by (simp_all add: answer_questions_RunResponse)
  from p have lt: "length tasks = length qs" by (metis length_map)
  from g have la: "length answers = length tasks" by (metis length_map)
  have each: "prepare_task E st (qs ! i) = Inr (tasks ! i) \<and>
              run_task E (tasks ! i) = Inr (answers ! i)" if "i < length qs" for i
  proof -
    have "map (prepare_task E st) qs ! i = map Inr tasks ! i" by (simp only: p)
    moreover have "map (run_task E) tasks ! i = map Inr answers ! i" by (simp only: g)
    ultimately show ?thesis using that lt la by simp
  qed
  show "length answers = length qs" using la lt by simp
  show "length tasks = length qs" by (rule lt)
  show "\<forall>i < length qs.
         prepare_task E st (qs ! i) = Inr (tasks ! i) \<and>
         run_task E (tasks ! i) = Inr (answers ! i) \<and>
         (\<forall>v vs. get_embeddings E [qs ! i] = Inr (v # vs) \<and>
                 search (arith E) (faiss_search E) st v 10 = Inr [] \<longrightarrow>
                 answers ! i =
                   ''Information for '' @ [CHR 0x27] @ qs ! i @ [CHR 0x27]
                   @ '' not found in document.'' \<and>
                 tasks ! i = Sleep0 (answers ! i) \<and>
                 (\<forall>E'. run_task E' (tasks ! i) = Inr (answers ! i))) \<and>
         (\<forall>v vs res. get_embeddings E [qs ! i] = Inr (v # vs) \<and>
                 search (arith E) (faiss_search E) st v 10 = Inr res \<and> res \<noteq> [] \<longrightarrow>
                 tasks ! i = GenerateAnswer (qs ! i) (map result_text res) \<and>
                 generate_answer E (qs ! i) (map result_text res) = Inr (answers ! i))"
  proof (intro allI impI conjI)
    fix i assume i: "i < length qs"
    show "prepare_task E st (qs ! i) = Inr (tasks ! i)" using each[OF i] by simp
    show "run_task E (tasks ! i) = Inr (answers ! i)" using each[OF i] by simp
  next
    fix i v vs
    assume i: "i < length qs"
      and h: "get_embeddings E [qs ! i] = Inr (v # vs) \<and>
              search (arith E) (faiss_search E) st v 10 = Inr []"
    from h have "prepare_task E st (qs ! i) = Inr (Sleep0 (not_found (qs ! i)))"
      by (simp add: prepare_task_def TOP_K_RETRIEVAL_def)
    with each[OF i] have t: "tasks ! i = Sleep0 (not_found (qs ! i))" by simp
    with each[OF i] have a: "answers ! i = not_found (qs ! i)" by simp
    show "answers ! i = ''Information for '' @ [CHR 0x27] @ qs ! i @ [CHR 0x27]
                   @ '' not found in document.''"
      using a by (simp add: not_found_def apostrophe_def)
    show "tasks ! i = Sleep0 (answers ! i)" using t a by simp
    show "run_task E' (tasks ! i) = Inr (answers ! i)" for E'
      using t a by simp
  next
    fix i v vs res
    assume i: "i < length qs"
      and h: "get_embeddings E [qs ! i] = Inr (v # vs) \<and>
              search (arith E) (faiss_search E) st v 10 = Inr res \<and> res \<noteq> []"
    from h have "prepare_task E st (qs ! i) =
                 Inr (GenerateAnswer (qs ! i) (map result_text res))"
      by (simp add: prepare_task_def TOP_K_RETRIEVAL_def)
    with each[OF i] show t: "tasks ! i = GenerateAnswer (qs ! i) (map result_text res)"
      by simp
    with each[OF i] show "generate_answer E (qs ! i) (map result_text res) = Inr (answers ! i)"
      by simp
  qed
qed

theorem answers_follow_questions_witness:
  "(\<exists>answers tasks.
      answer_questions demo_env (new_manager 1) [''grace?'', ''Mars?'', ''x''] =
        (RunResponse answers, tasks)) \<and>
   answer_questions demo_env (new_manager 1) [''grace?'', ''Mars?'', ''x''] =
     (RunResponse
        [''Information for '' @ [CHR 0x27] @ ''grace?'' @ [CHR 0x27] @ '' not found in document.'',
         ''Information for '' @ [CHR 0x27] @ ''Mars?'' @ [CHR 0x27] @ '' not found in document.'',
         ''Information for '' @ [CHR 0x27] @ ''x'' @ [CHR 0x27] @ '' not found in document.''],
      [Sleep0 (''Information for '' @ [CHR 0x27] @ ''grace?'' @ [CHR 0x27] @ '' not found in document.''),
       Sleep0 (''Information for '' @ [CHR 0x27] @ ''Mars?'' @ [CHR 0x27] @ '' not found in document.''),
       Sleep0 (''Information for '' @ [CHR 0x27] @ ''x'' @ [CHR 0x27] @ '' not found in document.'')]) \<and>
   get_embeddings demo_env [''Mars?''] = Inr [[5]] \<and>
   search (arith demo_env) (faiss_search demo_env) (new_manager 1) [5] 10 = Inr [] \<and>
   run_task demo_env
     (Sleep0 (''Information for '' @ [CHR 0x27] @ ''Mars?'' @ [CHR 0x27] @ '' not found in document.'')) =
     Inr (''Information for '' @ [CHR 0x27] @ ''Mars?'' @ [CHR 0x27] @ '' not found in document.'') \<and>
   (\<exists>answers tasks.
      answer_questions demo_env policy_store [''grace?'', ''Mars?''] =
        (RunResponse answers, tasks)) \<and>
   answer_questions demo_env policy_store [''grace?'', ''Mars?''] =
     (RunResponse [''re: grace?'', ''re: Mars?''],
      [GenerateAnswer ''grace?'' [''period'', ''grace''],
       GenerateAnswer ''Mars?'' [''grace'', ''period'']]) \<and>
   get_embeddings demo_env [''grace?''] = Inr [[6]] \<and>
   search (arith demo_env) (faiss_search demo_env) policy_store [6] 10 =
     Inr [\<lparr>result_text = ''period'', metadata = Map.empty, distance = 0\<rparr>,
          \<lparr>result_text = ''grace'', metadata = Map.empty, distance = 1\<rparr>] \<and>
   generate_answer demo_env ''grace?'' [''period'', ''grace''] = Inr ''re: grace?''"
proof -
  have run1: "answer_questions demo_env (new_manager 1) [''grace?'', ''Mars?'', ''x''] =
     (RunResponse [not_found ''grace?'', not_found ''Mars?'', not_found ''x''],
      [Sleep0 (not_found ''grace?''), Sleep0 (not_found ''Mars?''),
       Sleep0 (not_found ''x'')])"
    by (rule demo_fallback_run)
  have run2: "answer_questions demo_env policy_store [''grace?'', ''Mars?''] =
     (RunResponse [''re: grace?'', ''re: Mars?''],
      [GenerateAnswer ''grace?'' [''period'', ''grace''],
       GenerateAnswer ''Mars?'' [''grace'', ''period'']])"
    by (rule demo_generate_run)
  have u1: "\<forall>q \<in> set [''grace?'', ''Mars?'', ''x''].
              \<exists>a. question_unit demo_env (new_manager 1) q = Inr a"
    by (simp add: question_unit_def demo_fallback_task)
  have gen: "generate_answer demo_env ''grace?'' [''period'', ''grace''] = Inr ''re: grace?''"
    "generate_answer demo_env ''Mars?'' [''grace'', ''period''] = Inr ''re: Mars?''"
    by (simp_all add: demo_env_def)
  have u2: "\<forall>q \<in> set [''grace?'', ''Mars?''].
              \<exists>a. question_unit demo_env policy_store q = Inr a"
    by (simp add: question_unit_def demo_generate_tasks gen)
  have e5: "get_embeddings demo_env [''Mars?''] = Inr [[5]]"
    and e6: "get_embeddings demo_env [''grace?''] = Inr [[6]]"
    by (simp_all add: demo_env_def)
  have s5: "search (arith demo_env) (faiss_search demo_env) (new_manager 1) [5] 10 = Inr []"
    by (simp add: search_def new_manager_def ntotal_def)
  have s6: "search (arith demo_env) (faiss_search demo_env) policy_store [6] 10 =
     Inr [\<lparr>result_text = ''period'', metadata = Map.empty, distance = 0\<rparr>,
          \<lparr>result_text = ''grace'', metadata = Map.empty, distance = 1\<rparr>]"
    using policy_search(2) by (simp add: demo_env_def)
  note t1 = answers_follow_questions[of "[''grace?'', ''Mars?'', ''x'']" demo_env
      "new_manager 1" "[not_found ''grace?'', not_found ''Mars?'', not_found ''x'']"
      "[Sleep0 (not_found ''grace?''), Sleep0 (not_found ''Mars?''),
        Sleep0 (not_found ''x'')]"]
  note t2 = answers_follow_questions[of "[''grace?'', ''Mars?'']" demo_env policy_store
      "[''re: grace?'', ''re: Mars?'']"
      "[GenerateAnswer ''grace?'' [''period'', ''grace''],
        GenerateAnswer ''Mars?'' [''grace'', ''period'']]"]
  from t1 u1 have a1: "\<exists>answers tasks.
      answer_questions demo_env (new_manager 1) [''grace?'', ''Mars?'', ''x''] =
        (RunResponse answers, tasks)" by blast
  from t2 u2 have a2: "\<exists>answers tasks.
      answer_questions demo_env policy_store [''grace?'', ''Mars?''] =
        (RunResponse answers, tasks)" by blast
  from t1 run1 have b1: "\<forall>i < length [''grace?'', ''Mars?'', ''x''].
      (\<forall>v vs. get_embeddings demo_env [[''grace?'', ''Mars?'', ''x''] ! i] = Inr (v # vs) \<and>
              search (arith demo_env) (faiss_search demo_env) (new_manager 1) v 10 = Inr [] \<longrightarrow>
              [not_found ''grace?'', not_found ''Mars?'', not_found ''x''] ! i =
                ''Information for '' @ [CHR 0x27] @ [''grace?'', ''Mars?'', ''x''] ! i
                @ [CHR 0x27] @ '' not found in document.'')"
    by blast
  have m: "not_found ''Mars?'' = ''Information for '' @ [CHR 0x27] @ ''Mars?'' @ [CHR 0x27] @ '' not found in document.''"
    using b1[rule_format, of 1 "[5]" "[]"] e5 s5 by simp
  have g: "not_found ''grace?'' = ''Information for '' @ [CHR 0x27] @ ''grace?'' @ [CHR 0x27] @ '' not found in document.''"
    using b1[rule_format, of 0 "[6]" "[]"] e6 s5[unfolded search_def]
    by (simp add: search_def new_manager_def ntotal_def)
  have x: "not_found ''x'' = ''Information for '' @ [CHR 0x27] @ ''x'' @ [CHR 0x27] @ '' not found in document.''"
    by (simp add: not_found_def apostrophe_def)
  from t2 run2 have b2: "\<forall>i < length [''grace?'', ''Mars?''].
      (\<forall>v vs res. get_embeddings demo_env [[''grace?'', ''Mars?''] ! i] = Inr (v # vs) \<and>
              search (arith demo_env) (faiss_search demo_env) policy_store v 10 = Inr res \<and>
              res \<noteq> [] \<longrightarrow>
              generate_answer demo_env ([''grace?'', ''Mars?''] ! i) (map result_text res) =
                Inr ([''re: grace?'', ''re: Mars?''] ! i))"
    by blast
  have g6: "generate_answer demo_env ''grace?'' [''period'', ''grace''] = Inr ''re: grace?''"
    using b2[rule_format, of 0 "[6]" "[]"] e6 s6 by simp
  have r: "run_task demo_env (Sleep0 (''Information for '' @ [CHR 0x27] @ ''Mars?'' @ [CHR 0x27] @ '' not found in document.'')) = Inr (''Information for '' @ [CHR 0x27] @ ''Mars?'' @ [CHR 0x27] @ '' not found in document.'')" by simp
  from run1 have run1': "answer_questions demo_env (new_manager 1) [''grace?'', ''Mars?'', ''x''] =
     (RunResponse [''Information for '' @ [CHR 0x27] @ ''grace?'' @ [CHR 0x27] @ '' not found in document.'', ''Information for '' @ [CHR 0x27] @ ''Mars?'' @ [CHR 0x27] @ '' not found in document.'', ''Information for '' @ [CHR 0x27] @ ''x'' @ [CHR 0x27] @ '' not found in document.''], [Sleep0 (''Information for '' @ [CHR 0x27] @ ''grace?'' @ [CHR 0x27] @ '' not found in document.''), Sleep0 (''Information for '' @ [CHR 0x27] @ ''Mars?'' @ [CHR 0x27] @ '' not found in document.''), Sleep0 (''Information for '' @ [CHR 0x27] @ ''x'' @ [CHR 0x27] @ '' not found in document.'')])"
    by (simp only: m g x)
  from a1 run1' e5 s5 r a2 run2 e6 s6 g6 show ?thesis by blast
qed

text \<open>
  Claim C9. If the unit of any one question of the batch fails, in its preparation
  or in its task, the questions are answered with the 500 response and with no list
  of answers; so is the run that ingested the document and asked these questions.
\<close>

theorem unit_failure_aborts_batch:
  assumes "q \<in> set qs" and "question_unit E st q = Inl e"
  shows "fst (answer_questions E st qs) = InternalServerError \<and>
         (\<forall>answers. fst (answer_questions E st qs) \<noteq> RunResponse answers) \<and>
         (check_authorization (REQUIRED_AUTH_TOKEN E) auth_header = None \<and>
          ingest E st0 (documents payload) = (None, st, made) \<and>
          questions payload = qs \<longrightarrow>
            response (run_hackrx_submission E st0 auth_header payload)
              = InternalServerError)"
proof -
  have no: "fst (answer_questions E st qs) \<noteq> RunResponse answers" for answers
  proof
    assume "fst (answer_questions E st qs) = RunResponse answers"
    then have "answer_questions E st qs =
               (RunResponse answers, snd (answer_questions E st qs))"
      by (rule answer_questions_tasks)
    then have "map (prepare_task E st) qs = map Inr (snd (answer_questions E st qs))"
      and "map (run_task E) (snd (answer_questions E st qs)) = map Inr answers"
      by (simp_all add: answer_questions_RunResponse)
    from unit_in_batch[OF this assms(1)] assms(2) show False by simp
  qed
  with answer_questions_cases[of E st qs]
  have err: "fst (answer_questions E st qs) = InternalServerError" by blast
  have "response (run_hackrx_submission E st0 auth_header payload) = InternalServerError"
    if "check_authorization (REQUIRED_AUTH_TOKEN E) auth_header = None \<and>
        ingest E st0 (documents payload) = (None, st, made) \<and> questions payload = qs"
    using that err run_admitted(3)[of E auth_header st0 payload] by simp
  with no err show ?thesis by blast
qed

theorem unit_failure_aborts_batch_witness:
  "''fail'' \<in> set [''grace?'', ''fail''] \<and>
   question_unit demo_env policy_store ''fail'' = Inl GenerationError \<and>
   question_unit demo_env policy_store ''grace?'' = Inr ''re: grace?'' \<and>
   fst (answer_questions demo_env policy_store [''grace?'', ''fail'']) = InternalServerError \<and>
   response (run_hackrx_submission demo_env demo_store (Some ''Bearer s3cret'')
     \<lparr>documents = ''policy.pdf'', questions = [''grace?'', ''fail'']\<rparr>) = InternalServerError"
proof -
  have m: "''fail'' \<in> set [''grace?'', ''fail'']" by simp
  have f: "question_unit demo_env policy_store ''fail'' = Inl GenerationError"
    by (simp add: question_unit_def demo_generate_tasks) (simp add: demo_env_def)
  have g: "question_unit demo_env policy_store ''grace?'' = Inr ''re: grace?''"
    by (simp add: question_unit_def demo_generate_tasks) (simp add: demo_env_def)
  note t = unit_failure_aborts_batch[OF m f, of "Some ''Bearer s3cret''" demo_store
      "\<lparr>documents = ''policy.pdf'', questions = [''grace?'', ''fail'']\<rparr>" policy_calls]
  from t have 1: "fst (answer_questions demo_env policy_store [''grace?'', ''fail''])
      = InternalServerError" by blast
  from t demo_authorized demo_ingest
  have 2: "response (run_hackrx_submission demo_env demo_store (Some ''Bearer s3cret'')
     \<lparr>documents = ''policy.pdf'', questions = [''grace?'', ''fail'']\<rparr>) = InternalServerError"
    by simp
  from m f g 1 2 show ?thesis by blast
qed


end
